theory Spec2Isabelle
  imports Main
begin

section \<open>The CORD-19 cleaning and analysis pipeline\<close>

text \<open>
  The repository is three Python modules over pandas: \<^verbatim>\<open>data_cleaning.py\<close>
  (\<^verbatim>\<open>clean_data\<close>, \<^verbatim>\<open>handle_dates\<close>, \<^verbatim>\<open>handle_missing_values\<close>,
  \<^verbatim>\<open>create_new_features\<close>), \<^verbatim>\<open>analysis_visualization.py\<close>
  (\<^verbatim>\<open>analyze_publication_trends\<close>, \<^verbatim>\<open>analyze_titles\<close>, \<^verbatim>\<open>analyze_sources\<close>)
  and the dashboard \<^verbatim>\<open>app.py\<close> with a \<^verbatim>\<open>clean_data\<close> of its own.

  What is modelled and what is not:
  \<^item> a DataFrame is its ordered column names and its ordered rows; a row maps a column
    name to a cell, and \<open>None\<close> is the absent cell (\<^verbatim>\<open>NaN\<close>, \<^verbatim>\<open>None\<close>, \<^verbatim>\<open>NaT\<close>:
    whatever \<^verbatim>\<open>isna()\<close> is true of);
  \<^item> DataFrames are objects: the cleaning functions assign columns in place, so they
    run on a heap of tables and take and return references;
  \<^item> an exception is a value \<open>Inl e\<close>; the heap at the moment of the raise is kept;
  \<^item> numbers are integers (floating point is outside this development), strings are
    ASCII, and a timestamp keeps its calendar date;
  \<^item> \<^verbatim>\<open>pd.to_datetime(..., errors='coerce')\<close>'s date parser and Python's \<^verbatim>\<open>str\<close> on
    a value that is not a string are parameters (\<open>parse\<close>, \<open>render\<close>);
  \<^item> \<^verbatim>\<open>print\<close> and the calls into matplotlib, seaborn and wordcloud are left out: they
    draw and report, and nothing they return is used.
\<close>

subsection \<open>Values, tables, errors\<close>

datatype scalar = Str string | Num int | Bool bool | Timestamp int int int

type_synonym cell = "scalar option"

type_synonym series = "cell list"

type_synonym row = "string \<Rightarrow> cell"

record table =
  columns :: "string list"
  rows :: "row list"

datatype error = KeyError string | ValueError | TypeError

type_synonym ref = nat

type_synonym heap = "table list"

type_synonym parser = "scalar \<Rightarrow> (int \<times> int \<times> int) option"

type_synonym renderer = "scalar \<Rightarrow> string"

subsection \<open>The pandas operations the code uses\<close>

text \<open>\<^verbatim>\<open>df[c]\<close>: the column as a series, \<^verbatim>\<open>KeyError\<close> when there is no such column.\<close>

definition getitem :: "table \<Rightarrow> string \<Rightarrow> error + series" where
  "getitem df c =
     (if c \<in> set (columns df) then Inr (map (\<lambda>r. r c) (rows df)) else Inl (KeyError c))"

text \<open>
  \<^verbatim>\<open>df[c] = s\<close>: an existing column keeps its position, a new one is appended. Every
  series the code assigns is computed from a column of the same table, so it has one
  entry per row.
\<close>

definition setitem :: "table \<Rightarrow> string \<Rightarrow> series \<Rightarrow> table" where
  "setitem df c s =
     df\<lparr>columns := (if c \<in> set (columns df) then columns df else columns df @ [c]),
        rows := map (\<lambda>(r, v). r(c := v)) (zip (rows df) s)\<rparr>"

text \<open>\<^verbatim>\<open>df[mask]\<close>: a new table of the rows whose entry in the boolean series is true.\<close>

definition select_rows :: "table \<Rightarrow> bool list \<Rightarrow> table" where
  "select_rows df keep = df\<lparr>rows := map snd (filter fst (zip keep (rows df)))\<rparr>"

definition isna :: "series \<Rightarrow> bool list" where
  "isna s = map (\<lambda>x. x = None) s"

definition fill :: "scalar \<Rightarrow> cell \<Rightarrow> cell" where
  "fill v x = (case x of None \<Rightarrow> Some v | Some y \<Rightarrow> Some y)"

definition fillna :: "scalar \<Rightarrow> series \<Rightarrow> series" where
  "fillna v s = map (fill v) s"


text \<open>\<^verbatim>\<open>a & b\<close> and \<^verbatim>\<open>~a\<close> on boolean series.\<close>

definition series_and :: "bool list \<Rightarrow> bool list \<Rightarrow> bool list" where
  "series_and a b = map (\<lambda>(x, y). x \<and> y) (zip a b)"

definition series_not :: "bool list \<Rightarrow> bool list" where
  "series_not a = map Not a"

text \<open>
  \<^verbatim>\<open>pd.to_datetime(s, errors='coerce')\<close>: an absent cell stays absent, a timestamp stays
  what it is, anything else goes through the parser and becomes absent when the parser
  rejects it.
\<close>

definition coerce_date :: "parser \<Rightarrow> cell \<Rightarrow> cell" where
  "coerce_date parse x =
     (case x of
        None \<Rightarrow> None
      | Some (Timestamp y m d) \<Rightarrow> Some (Timestamp y m d)
      | Some v \<Rightarrow> (case parse v of None \<Rightarrow> None | Some (y, m, d) \<Rightarrow> Some (Timestamp y m d)))"

definition to_datetime :: "parser \<Rightarrow> series \<Rightarrow> series" where
  "to_datetime parse s = map (coerce_date parse) s"

text \<open>
  \<^verbatim>\<open>s.dt.year\<close> and \<^verbatim>\<open>s.dt.month\<close>. The code applies them to the column
  \<open>to_datetime\<close> has just written, whose cells are timestamps or absent.
\<close>

definition year_of :: "cell \<Rightarrow> cell" where
  "year_of x = (case x of Some (Timestamp y m d) \<Rightarrow> Some (Num y) | _ \<Rightarrow> None)"

definition month_of :: "cell \<Rightarrow> cell" where
  "month_of x = (case x of Some (Timestamp y m d) \<Rightarrow> Some (Num m) | _ \<Rightarrow> None)"

definition dt_year :: "series \<Rightarrow> series" where
  "dt_year s = map year_of s"

definition dt_month :: "series \<Rightarrow> series" where
  "dt_month s = map month_of s"

text \<open>
  \<^verbatim>\<open>s.mode()\<close> on a numeric column: the values of greatest count among the cells that
  are present, in ascending order; empty when no cell is present.
\<close>

definition nums :: "series \<Rightarrow> int list" where
  "nums s = concat (map (\<lambda>x. case x of Some (Num n) \<Rightarrow> [n] | _ \<Rightarrow> []) s)"

definition mode :: "series \<Rightarrow> int list" where
  "mode s =
     (let ys = nums s;
          top = fold max (map (count_list ys) ys) 0
      in sort (remdups (filter (\<lambda>y. count_list ys y = top) ys)))"

text \<open>\<^verbatim>\<open>s.apply(f)\<close>: \<open>f\<close> on every cell, absent ones included.\<close>

definition apply_series :: "(cell \<Rightarrow> cell) \<Rightarrow> series \<Rightarrow> series" where
  "apply_series f s = map f s"

subsection \<open>The Python string operations the code uses\<close>

text \<open>\<^verbatim>\<open>str(x)\<close>: a string is itself, \<^verbatim>\<open>NaN\<close> prints as \<^verbatim>\<open>nan\<close>.\<close>

definition py_str :: "renderer \<Rightarrow> cell \<Rightarrow> string" where
  "py_str render x = (case x of None \<Rightarrow> ''nan'' | Some (Str s) \<Rightarrow> s | Some v \<Rightarrow> render v)"

text \<open>The ASCII characters \<^verbatim>\<open>str.isspace\<close> accepts: codes 9 to 13, 28 to 32.\<close>

definition isspace :: "char \<Rightarrow> bool" where
  "isspace c = (of_char c \<in> {9, 10, 11, 12, 13, 28, 29, 30, 31, 32 :: nat})"

text \<open>The maximal non-empty runs of characters that satisfy \<open>p\<close>, left to right.\<close>

function runs :: "(char \<Rightarrow> bool) \<Rightarrow> string \<Rightarrow> string list" where
  "runs p [] = []"
| "runs p (c # cs) =
     (if p c then (c # takeWhile p cs) # runs p (dropWhile p cs) else runs p cs)"
  by pat_completeness auto
termination
  by (relation "measure (\<lambda>(p, s). length s)") (auto simp: less_Suc_eq_le length_dropWhile_le)

text \<open>\<^verbatim>\<open>s.split()\<close>: the maximal runs of characters that are not whitespace.\<close>

definition split :: "string \<Rightarrow> string list" where
  "split s = runs (\<lambda>c. \<not> isspace c) s"

text \<open>\<^verbatim>\<open>s.strip()\<close>: whitespace removed at both ends.\<close>

definition strip :: "string \<Rightarrow> string" where
  "strip s = rev (dropWhile isspace (rev (dropWhile isspace s)))"

subsection \<open>data_cleaning.py\<close>

text \<open>
  \<open>raise_or h m k\<close>: the statement that evaluates \<open>m\<close> raises in heap \<open>h\<close>, or the
  rest of the function body \<open>k\<close> runs on its value.
\<close>

definition raise_or ::
  "heap \<Rightarrow> error + 'a \<Rightarrow> ('a \<Rightarrow> heap \<times> (error + 'b)) \<Rightarrow> heap \<times> (error + 'b)" where
  "raise_or h m k = (case m of Inl e \<Rightarrow> (h, Inl e) | Inr x \<Rightarrow> k x)"

text \<open>\<^verbatim>\<open>df[c]\<close> and \<^verbatim>\<open>df[c] = s\<close> on the object \<open>df\<close> refers to.\<close>

definition column :: "heap \<Rightarrow> ref \<Rightarrow> string \<Rightarrow> error + series" where
  "column h df c = getitem (h ! df) c"

definition assign :: "heap \<Rightarrow> ref \<Rightarrow> string \<Rightarrow> series \<Rightarrow> heap" where
  "assign h df c s = h[df := setitem (h ! df) c s]"

text \<open>\<^verbatim>\<open>df.copy()\<close> and any other expression that builds a table: a new object.\<close>

definition new_table :: "heap \<Rightarrow> table \<Rightarrow> heap \<times> ref" where
  "new_table h t = (h @ [t], length h)"

definition handle_dates :: "parser \<Rightarrow> heap \<Rightarrow> ref \<Rightarrow> heap \<times> (error + ref)" where
  "handle_dates parse h df =
     raise_or h (column h df ''publish_time'') (\<lambda>pt.
     let h = assign h df ''publish_time'' (to_datetime parse pt) in
     raise_or h (column h df ''publish_time'') (\<lambda>pt.
     let h = assign h df ''publication_year'' (dt_year pt) in
     raise_or h (column h df ''publish_time'') (\<lambda>pt.
     let h = assign h df ''publication_month'' (dt_month pt) in
     raise_or h (column h df ''publication_year'') (\<lambda>py.
     let mode_year = mode py in
     if length mode_year > 0
     then raise_or h (column h df ''publication_year'') (\<lambda>py.
          (assign h df ''publication_year'' (fillna (Num (mode_year ! 0)) py), Inr df))
     else (h, Inr df)))))"

text \<open>
  \<^verbatim>\<open>df = df[~(...)]\<close> builds a new table and rebinds the local name; the function
  returns the new object. \<^verbatim>\<open>removed_count\<close> is printed and not returned: it is the number
  of rows the selection leaves out.
\<close>

definition handle_missing_values :: "heap \<Rightarrow> ref \<Rightarrow> heap \<times> (error + ref)" where
  "handle_missing_values h df =
     raise_or h (column h df ''title'') (\<lambda>title.
     let h = assign h df ''title'' (fillna (Str ''Unknown Title'') title) in
     raise_or h (column h df ''abstract'') (\<lambda>abstract.
     let h = assign h df ''abstract'' (fillna (Str '''') abstract) in
     raise_or h (column h df ''journal'') (\<lambda>journal.
     let h = assign h df ''journal'' (fillna (Str ''Unknown Journal'') journal) in
     raise_or h (column h df ''title'') (\<lambda>title.
     raise_or h (column h df ''abstract'') (\<lambda>abstract.
     let (h, df) =
       new_table h (select_rows (h ! df) (series_not (series_and (isna title) (isna abstract))))
     in (h, Inr df))))))"

definition create_new_features :: "renderer \<Rightarrow> heap \<Rightarrow> ref \<Rightarrow> heap \<times> (error + ref)" where
  "create_new_features render h df =
     raise_or h (column h df ''abstract'') (\<lambda>abstract.
     let h = assign h df ''abstract_word_count''
               (apply_series (\<lambda>x. Some (Num (int (length (split (py_str render x)))))) abstract) in
     raise_or h (column h df ''title'') (\<lambda>title.
     let h = assign h df ''title_word_count''
               (apply_series (\<lambda>x. Some (Num (int (length (split (py_str render x)))))) title) in
     raise_or h (column h df ''abstract'') (\<lambda>abstract.
     let h = assign h df ''has_abstract''
               (apply_series (\<lambda>x. Some (Bool (length (strip (py_str render x)) > 0))) abstract) in
     raise_or h (column h df ''source_x'') (\<lambda>source_x.
     (assign h df ''source_type'' (fillna (Str ''Unknown'') source_x), Inr df)))))"

definition clean_data :: "parser \<Rightarrow> renderer \<Rightarrow> heap \<Rightarrow> ref \<Rightarrow> heap \<times> (error + ref)" where
  "clean_data parse render h df =
     (let (h, df_clean) = new_table h (h ! df) in
      case handle_dates parse h df_clean of
        (h, Inl e) \<Rightarrow> (h, Inl e)
      | (h, Inr df_clean) \<Rightarrow>
      (case handle_missing_values h df_clean of
        (h, Inl e) \<Rightarrow> (h, Inl e)
      | (h, Inr df_clean) \<Rightarrow>
      (case create_new_features render h df_clean of
        (h, Inl e) \<Rightarrow> (h, Inl e)
      | (h, Inr df_clean) \<Rightarrow> (h, Inr df_clean))))"

subsection \<open>app.py\<close>

text \<open>
  The dashboard's own \<^verbatim>\<open>clean_data\<close>. Its \<^verbatim>\<open>st.cache_data\<close> decorator stores
  results between renders and changes none of them.
\<close>

definition app_clean_data :: "parser \<Rightarrow> renderer \<Rightarrow> heap \<Rightarrow> ref \<Rightarrow> heap \<times> (error + ref)" where
  "app_clean_data parse render h df =
     (let (h, df_clean) = new_table h (h ! df) in
      raise_or h (column h df_clean ''publish_time'') (\<lambda>pt.
      let h = assign h df_clean ''publish_time'' (to_datetime parse pt) in
      raise_or h (column h df_clean ''publish_time'') (\<lambda>pt.
      let h = assign h df_clean ''publication_year'' (dt_year pt) in
      raise_or h (column h df_clean ''title'') (\<lambda>title.
      let h = assign h df_clean ''title'' (fillna (Str ''Unknown Title'') title) in
      raise_or h (column h df_clean ''abstract'') (\<lambda>abstract.
      let h = assign h df_clean ''abstract'' (fillna (Str '''') abstract) in
      raise_or h (column h df_clean ''journal'') (\<lambda>journal.
      let h = assign h df_clean ''journal'' (fillna (Str ''Unknown Journal'') journal) in
      raise_or h (column h df_clean ''abstract'') (\<lambda>abstract.
      let h = assign h df_clean ''abstract_word_count''
                (apply_series (\<lambda>x. Some (Num (int (length (split (py_str render x)))))) abstract) in
      raise_or h (column h df_clean ''abstract'') (\<lambda>abstract.
      let h = assign h df_clean ''has_abstract''
                (apply_series (\<lambda>x. Some (Bool (length (strip (py_str render x)) > 0))) abstract) in
      (h, Inr df_clean)))))))))"

subsection \<open>The Python and pandas operations of the analysis\<close>




text \<open>
  \<^verbatim>\<open>Counter.most_common(n)\<close> is \<^verbatim>\<open>sorted(items, key=count, reverse=True)[:n]\<close>: the sort
  is stable, so entries of equal count stay in the counter's order.
\<close>

definition by_count :: "('a \<times> nat) list \<Rightarrow> ('a \<times> nat) list" where
  "by_count items = sort_key (\<lambda>p. - int (snd p)) items"

















subsection \<open>analysis_visualization.py\<close>






section \<open>What each function leaves behind\<close>

text \<open>
  The definitions of this section are not code of the repository: they name the table each
  function leaves in the object it was given, row by row, and the lemmas show that the
  functions above compute exactly these tables.
\<close>

definition add_column :: "string \<Rightarrow> string list \<Rightarrow> string list" where
  "add_column c cs = (if c \<in> set cs then cs else cs @ [c])"

lemma set_add_column [simp]: "set (add_column c cs) = insert c (set cs)"
  by (auto simp: add_column_def)

lemma add_column_mem [simp]: "c \<in> set cs \<Longrightarrow> add_column c cs = cs"
  by (simp add: add_column_def)

lemma zip_map_map_same: "zip (map k xs) (map g xs) = map (\<lambda>x. (k x, g x)) xs"
  by (induction xs) auto

lemma getitem_lit:
  "getitem \<lparr>columns = cs, rows = map k xs\<rparr> c =
     (if c \<in> set cs then Inr (map (\<lambda>x. k x c) xs) else Inl (KeyError c))"
  by (simp add: getitem_def comp_def)

lemma setitem_lit:
  "setitem \<lparr>columns = cs, rows = map k xs\<rparr> c (map g xs) =
     \<lparr>columns = add_column c cs, rows = map (\<lambda>x. (k x)(c := g x)) xs\<rparr>"
  by (simp add: setitem_def add_column_def zip_map_map_same comp_def)

lemma select_rows_lit:
  "select_rows \<lparr>columns = cs, rows = map k xs\<rparr> (map p xs) =
     \<lparr>columns = cs, rows = map k (filter p xs)\<rparr>"
proof -
  have "map snd (filter fst (zip (map p ys) (map k ys))) = map k (filter p ys)" for ys
    by (induction ys) auto
  then show ?thesis by (simp add: select_rows_def)
qed

lemma getitem_base:
  "getitem \<lparr>columns = cs, rows = xs\<rparr> c =
     (if c \<in> set cs then Inr (map (\<lambda>x. x c) xs) else Inl (KeyError c))"
  by (simp add: getitem_def)

lemma setitem_base:
  "setitem \<lparr>columns = cs, rows = xs\<rparr> c (map g xs) =
     \<lparr>columns = add_column c cs, rows = map (\<lambda>x. x(c := g x)) xs\<rparr>"
  using setitem_lit [of cs "\<lambda>r. r" xs c g] by simp

definition date_row :: "parser \<Rightarrow> row \<Rightarrow> row" where
  "date_row parse r =
     r(''publish_time'' := coerce_date parse (r ''publish_time''),
       ''publication_year'' := year_of (coerce_date parse (r ''publish_time'')),
       ''publication_month'' := month_of (coerce_date parse (r ''publish_time'')))"

definition raw_years :: "parser \<Rightarrow> row list \<Rightarrow> series" where
  "raw_years parse xs = map (\<lambda>r. year_of (coerce_date parse (r ''publish_time''))) xs"

definition year_row :: "int list \<Rightarrow> row \<Rightarrow> row" where
  "year_row ms r =
     (if ms = [] then r
      else r(''publication_year'' := fill (Num (ms ! 0)) (r ''publication_year'')))"

definition dated :: "parser \<Rightarrow> table \<Rightarrow> table" where
  "dated parse t =
     \<lparr>columns = add_column ''publication_month'' (add_column ''publication_year'' (columns t)),
      rows = map (\<lambda>r. year_row (mode (raw_years parse (rows t))) (date_row parse r)) (rows t)\<rparr>"

lemma handle_dates_ok:
  assumes "df < length h" and "''publish_time'' \<in> set (columns (h ! df))"
  shows "handle_dates parse h df = (h[df := dated parse (h ! df)], Inr df)"
proof -
  obtain cs xs where t: "h ! df = \<lparr>columns = cs, rows = xs\<rparr>"
    by (cases "h ! df") auto
  have cs: "''publish_time'' \<in> set cs" using assms(2) t by simp
  show ?thesis
    using assms(1) cs
    by (simp add: handle_dates_def column_def assign_def raise_or_def t Let_def
      to_datetime_def dt_year_def dt_month_def fillna_def comp_def
      getitem_lit setitem_lit getitem_base setitem_base dated_def raw_years_def year_row_def date_row_def)
qed

lemma handle_dates_raise:
  assumes "''publish_time'' \<notin> set (columns (h ! df))"
  shows "handle_dates parse h df = (h, Inl (KeyError ''publish_time''))"
  using assms by (simp add: handle_dates_def column_def raise_or_def getitem_def)

definition fill_row :: "row \<Rightarrow> row" where
  "fill_row r =
     r(''title'' := fill (Str ''Unknown Title'') (r ''title''),
       ''abstract'' := fill (Str []) (r ''abstract''),
       ''journal'' := fill (Str ''Unknown Journal'') (r ''journal''))"

definition filled :: "table \<Rightarrow> table" where
  "filled t = \<lparr>columns = columns t, rows = map fill_row (rows t)\<rparr>"

lemma fill_not_None [simp]: "fill v x \<noteq> None"
  by (simp add: fill_def split: option.splits)

lemma handle_missing_values_ok:
  assumes "df < length h" and "''title'' \<in> set (columns (h ! df))"
    and "''abstract'' \<in> set (columns (h ! df))" and "''journal'' \<in> set (columns (h ! df))"
  shows "handle_missing_values h df =
           (h[df := filled (h ! df)] @ [filled (h ! df)], Inr (length h))"
proof -
  obtain cs xs where t: "h ! df = \<lparr>columns = cs, rows = xs\<rparr>"
    by (cases "h ! df") auto
  have cs: "''title'' \<in> set cs" "''abstract'' \<in> set cs" "''journal'' \<in> set cs"
    using assms t by simp_all
  show ?thesis
    using assms(1) cs
    by (simp add: handle_missing_values_def column_def assign_def raise_or_def t Let_def
      fillna_def comp_def isna_def series_and_def series_not_def new_table_def zip_map_map_same
      getitem_lit setitem_lit select_rows_lit getitem_base setitem_base filled_def fill_row_def [abs_def])
qed

definition feature_row :: "renderer \<Rightarrow> row \<Rightarrow> row" where
  "feature_row render r =
     r(''abstract_word_count'' := Some (Num (int (length (split (py_str render (r ''abstract'')))))),
       ''title_word_count'' := Some (Num (int (length (split (py_str render (r ''title'')))))),
       ''has_abstract'' := Some (Bool (length (strip (py_str render (r ''abstract''))) > 0)),
       ''source_type'' := fill (Str ''Unknown'') (r ''source_x''))"

definition featured :: "renderer \<Rightarrow> table \<Rightarrow> table" where
  "featured render t =
     \<lparr>columns = add_column ''source_type'' (add_column ''has_abstract''
        (add_column ''title_word_count'' (add_column ''abstract_word_count'' (columns t)))),
      rows = map (feature_row render) (rows t)\<rparr>"

lemma create_new_features_ok:
  assumes "df < length h" and "''title'' \<in> set (columns (h ! df))"
    and "''abstract'' \<in> set (columns (h ! df))" and "''source_x'' \<in> set (columns (h ! df))"
  shows "create_new_features render h df = (h[df := featured render (h ! df)], Inr df)"
proof -
  obtain cs xs where t: "h ! df = \<lparr>columns = cs, rows = xs\<rparr>"
    by (cases "h ! df") auto
  have cs: "''title'' \<in> set cs" "''abstract'' \<in> set cs" "''source_x'' \<in> set cs"
    using assms t by simp_all
  show ?thesis
    using assms(1) cs
    by (simp add: create_new_features_def column_def assign_def raise_or_def t Let_def
      fillna_def comp_def apply_series_def
      getitem_lit setitem_lit getitem_base setitem_base featured_def feature_row_def [abs_def])
qed

definition required :: "string list" where
  "required = [''title'', ''abstract'', ''journal'', ''publish_time'', ''source_x'']"

lemma columns_dated [simp]:
  "set (columns (dated parse t)) = insert ''publication_month'' (insert ''publication_year'' (set (columns t)))"
  by (simp add: dated_def)

lemma columns_filled [simp]: "columns (filled t) = columns t"
  by (simp add: filled_def)

lemma clean_data_ok:
  assumes "set required \<subseteq> set (columns (h ! df))"
  shows "clean_data parse render h df =
           (h @ [filled (dated parse (h ! df)), featured render (filled (dated parse (h ! df)))],
            Inr (Suc (length h)))"
  using assms
  by (simp add: clean_data_def new_table_def required_def handle_dates_ok
      handle_missing_values_ok create_new_features_ok nth_append list_update_append)

definition cleaned_row :: "parser \<Rightarrow> renderer \<Rightarrow> int list \<Rightarrow> row \<Rightarrow> row" where
  "cleaned_row parse render ms r = feature_row render (fill_row (year_row ms (date_row parse r)))"

lemma rows_cleaned:
  "rows (featured render (filled (dated parse t))) =
     map (cleaned_row parse render (mode (raw_years parse (rows t)))) (rows t)"
  by (simp add: featured_def filled_def dated_def cleaned_row_def comp_def)

lemma columns_cleaned:
  "set (columns (featured render (filled (dated parse t)))) =
     set (columns t) \<union> {''publication_year'', ''publication_month'', ''abstract_word_count'',
       ''title_word_count'', ''has_abstract'', ''source_type''}"
  by (auto simp: featured_def)

lemma runs_Nil_iff: "runs p s = [] \<longleftrightarrow> (\<forall>c\<in>set s. \<not> p c)"
  by (induction p s rule: runs.induct) auto

lemma strip_Nil_iff: "strip s = [] \<longleftrightarrow> (\<forall>c\<in>set s. isspace c)"
proof
  assume "strip s = []"
  then have all: "\<forall>c\<in>set (dropWhile isspace s). isspace c"
    by (simp add: strip_def dropWhile_eq_Nil_conv)
  have "dropWhile isspace s = []"
  proof (cases "dropWhile isspace s")
    case (Cons c cs)
    then have "\<not> isspace c" using hd_dropWhile [of isspace s] by simp
    moreover have "isspace c" using all Cons by simp
    ultimately show ?thesis by simp
  qed simp
  then show "\<forall>c\<in>set s. isspace c" by (simp add: dropWhile_eq_Nil_conv)
next
  assume "\<forall>c\<in>set s. isspace c"
  then show "strip s = []" by (auto simp: strip_def dest: set_dropWhileD)
qed

lemma split_Nil_iff_strip: "split s = [] \<longleftrightarrow> strip s = []"
  by (simp add: split_def runs_Nil_iff strip_Nil_iff)

definition app_row :: "parser \<Rightarrow> renderer \<Rightarrow> row \<Rightarrow> row" where
  "app_row parse render r =
     r(''publish_time'' := coerce_date parse (r ''publish_time''),
       ''publication_year'' := year_of (coerce_date parse (r ''publish_time'')),
       ''title'' := fill (Str ''Unknown Title'') (r ''title''),
       ''abstract'' := fill (Str []) (r ''abstract''),
       ''journal'' := fill (Str ''Unknown Journal'') (r ''journal''),
       ''abstract_word_count'' :=
          Some (Num (int (length (split (py_str render (fill (Str []) (r ''abstract''))))))),
       ''has_abstract'' :=
          Some (Bool (length (strip (py_str render (fill (Str []) (r ''abstract'')))) > 0)))"

definition app_cleaned :: "parser \<Rightarrow> renderer \<Rightarrow> table \<Rightarrow> table" where
  "app_cleaned parse render t =
     \<lparr>columns = add_column ''has_abstract'' (add_column ''abstract_word_count''
        (add_column ''publication_year'' (columns t))),
      rows = map (app_row parse render) (rows t)\<rparr>"

lemma app_clean_data_ok:
  assumes "set [''publish_time'', ''title'', ''abstract'', ''journal''] \<subseteq> set (columns (h ! df))"
  shows "app_clean_data parse render h df =
           (h @ [app_cleaned parse render (h ! df)], Inr (length h))"
proof -
  obtain cs xs where t: "h ! df = \<lparr>columns = cs, rows = xs\<rparr>"
    by (cases "h ! df") auto
  have cs: "''publish_time'' \<in> set cs" "''title'' \<in> set cs" "''abstract'' \<in> set cs"
      "''journal'' \<in> set cs"
    using assms t by simp_all
  show ?thesis
    using cs
    by (simp add: app_clean_data_def new_table_def column_def assign_def raise_or_def t Let_def
      to_datetime_def dt_year_def fillna_def comp_def apply_series_def
      getitem_lit setitem_lit getitem_base setitem_base app_cleaned_def app_row_def [abs_def])
qed

lemma clean_data_rows:
  assumes "set required \<subseteq> set (columns (h ! df))"
  obtains h' p where "clean_data parse render h df = (h', Inr p)"
    and "rows (h' ! p) =
           map (cleaned_row parse render (mode (raw_years parse (rows (h ! df))))) (rows (h ! df))"
    and "h' ! p = featured render (filled (dated parse (h ! df)))"
    and "take (length h) h' = h"
proof -
  let ?T = "featured render (filled (dated parse (h ! df)))"
  have "(h @ [filled (dated parse (h ! df)), ?T]) ! Suc (length h) = ?T"
    by (simp add: nth_append)
  then show ?thesis
    using that [OF clean_data_ok [OF assms, of parse render]] by (simp add: rows_cleaned)
qed

lemma split_Nil [simp]: "split [] = []"
  by (simp add: split_def)

lemma cleaned_row_title:
  "cleaned_row parse render ms r ''title'' = fill (Str ''Unknown Title'') (r ''title'')"
  by (simp add: cleaned_row_def feature_row_def fill_row_def year_row_def date_row_def)

lemma cleaned_row_abstract:
  "cleaned_row parse render ms r ''abstract'' = fill (Str []) (r ''abstract'')"
  by (simp add: cleaned_row_def feature_row_def fill_row_def year_row_def date_row_def)

lemma cleaned_row_journal:
  "cleaned_row parse render ms r ''journal'' = fill (Str ''Unknown Journal'') (r ''journal'')"
  by (simp add: cleaned_row_def feature_row_def fill_row_def year_row_def date_row_def)

lemma cleaned_row_has_abstract:
  "cleaned_row parse render ms r ''has_abstract'' =
     Some (Bool (strip (py_str render (fill (Str []) (r ''abstract''))) \<noteq> []))"
  by (simp add: cleaned_row_def feature_row_def fill_row_def year_row_def date_row_def)

lemma cleaned_row_abstract_word_count:
  "cleaned_row parse render ms r ''abstract_word_count'' =
     Some (Num (int (length (split (py_str render (fill (Str []) (r ''abstract'')))))))"
  by (simp add: cleaned_row_def feature_row_def fill_row_def year_row_def date_row_def)

lemma cleaned_row_title_word_count:
  "cleaned_row parse render ms r ''title_word_count'' =
     Some (Num (int (length (split (py_str render (fill (Str ''Unknown Title'') (r ''title'')))))))"
  by (simp add: cleaned_row_def feature_row_def fill_row_def year_row_def date_row_def)

lemma cleaned_row_source_type:
  "cleaned_row parse render ms r ''source_type'' = fill (Str ''Unknown'') (r ''source_x'')"
  by (simp add: cleaned_row_def feature_row_def fill_row_def year_row_def date_row_def)

lemma cleaned_row_publish_time:
  "cleaned_row parse render ms r ''publish_time'' = coerce_date parse (r ''publish_time'')"
  by (simp add: cleaned_row_def feature_row_def fill_row_def year_row_def date_row_def)

lemma cleaned_row_publication_month:
  "cleaned_row parse render ms r ''publication_month'' =
     month_of (coerce_date parse (r ''publish_time''))"
  by (simp add: cleaned_row_def feature_row_def fill_row_def year_row_def date_row_def)

lemma cleaned_row_publication_year:
  "cleaned_row parse render ms r ''publication_year'' =
     (if ms = [] then year_of (coerce_date parse (r ''publish_time''))
      else fill (Num (ms ! 0)) (year_of (coerce_date parse (r ''publish_time''))))"
  by (simp add: cleaned_row_def feature_row_def fill_row_def year_row_def date_row_def)

definition written :: "string list" where
  "written = [''publish_time'', ''publication_year'', ''publication_month'', ''title'', ''abstract'',
     ''journal'', ''abstract_word_count'', ''title_word_count'', ''has_abstract'', ''source_type'']"

lemma cleaned_row_other:
  "c \<notin> set written \<Longrightarrow> cleaned_row parse render ms r c = r c"
  by (simp add: written_def cleaned_row_def feature_row_def fill_row_def year_row_def date_row_def)

lemmas cleaned_row_simps =
  cleaned_row_title cleaned_row_abstract cleaned_row_journal cleaned_row_has_abstract
  cleaned_row_abstract_word_count cleaned_row_title_word_count cleaned_row_source_type
  cleaned_row_publish_time cleaned_row_publication_month cleaned_row_publication_year

definition app_required :: "string list" where
  "app_required = [''publish_time'', ''title'', ''abstract'', ''journal'']"

lemma flag_count_agree:
  "(strip s \<noteq> []) \<longleftrightarrow> 0 < int (length (split s))"
  using split_Nil_iff_strip [of s] by simp

lemma coerce_date_idem [simp]:
  "coerce_date parse (coerce_date parse x) = coerce_date parse x"
  by (simp add: coerce_date_def split: option.splits scalar.splits)

lemma fill_idem [simp]: "fill v (fill w x) = fill w x"
  by (simp add: fill_def split: option.splits)

lemma raw_years_cleaned:
  "raw_years parse (map (cleaned_row parse render ms) xs) = raw_years parse xs"
  by (simp add: raw_years_def cleaned_row_publish_time)

lemma cleaned_row_source_x:
  "cleaned_row parse render ms r ''source_x'' = r ''source_x''"
  by (rule cleaned_row_other) (simp add: written_def)

lemma cleaned_row_idem:
  "cleaned_row parse render ms (cleaned_row parse render ms r) = cleaned_row parse render ms r"
proof (rule ext)
  fix c
  show "cleaned_row parse render ms (cleaned_row parse render ms r) c
          = cleaned_row parse render ms r c"
  proof (cases "c \<in> set written")
    case True
    then have "c = ''publish_time'' \<or> c = ''publication_year'' \<or> c = ''publication_month''
      \<or> c = ''title'' \<or> c = ''abstract'' \<or> c = ''journal'' \<or> c = ''abstract_word_count''
      \<or> c = ''title_word_count'' \<or> c = ''has_abstract'' \<or> c = ''source_type''"
      unfolding written_def by simp
    then show ?thesis
      by (elim disjE) (simp_all only: cleaned_row_simps cleaned_row_source_x
           coerce_date_idem fill_idem)
  next
    case False
    then show ?thesis by (simp add: cleaned_row_other)
  qed
qed


definition cleaned :: "parser \<Rightarrow> renderer \<Rightarrow> table \<Rightarrow> table" where
  "cleaned parse render t = featured render (filled (dated parse t))"

lemma columns_cleaned_twice:
  "columns (cleaned parse render (cleaned parse render t)) = columns (cleaned parse render t)"
proof -
  have "columns (cleaned parse render T) = columns T"
    if "{''publication_year'', ''publication_month'',
       ''abstract_word_count'', ''title_word_count'', ''has_abstract'', ''source_type''}
       \<subseteq> set (columns T)" for T
    using that by (simp add: cleaned_def featured_def filled_def dated_def)
  then show ?thesis
    by (simp add: cleaned_def [of parse render t] columns_cleaned)
qed

lemma rows_cleaned_twice:
  "rows (cleaned parse render (cleaned parse render t)) = rows (cleaned parse render t)"
  by (simp add: cleaned_def rows_cleaned raw_years_cleaned cleaned_row_idem)

lemma cleaned_idem:
  "cleaned parse render (cleaned parse render t) = cleaned parse render t"
  using columns_cleaned_twice [of parse render t] rows_cleaned_twice [of parse render t]
  by (rule table.equality) simp

subsection \<open>The tables a call leaves untouched\<close>

lemma take_assign: "n \<le> df \<Longrightarrow> take n (assign h df c s) = take n h"
  by (simp add: assign_def)

lemma length_assign [simp]: "length (assign h df c s) = length h"
  by (simp add: assign_def)

lemma handle_dates_frame:
  "n \<le> df \<Longrightarrow> take n (fst (handle_dates parse h df)) = take n h"
  by (simp add: handle_dates_def raise_or_def Let_def take_assign split: sum.splits)

lemma handle_dates_ref:
  "handle_dates parse h df = (h', Inr p) \<Longrightarrow> p = df \<and> length h' = length h"
  by (auto simp: handle_dates_def raise_or_def Let_def split: sum.splits if_splits)

lemma handle_missing_values_frame:
  "n \<le> df \<Longrightarrow> df < length h \<Longrightarrow> take n (fst (handle_missing_values h df)) = take n h"
  by (simp add: handle_missing_values_def raise_or_def Let_def take_assign new_table_def
      split: sum.splits)

lemma handle_missing_values_ref:
  "handle_missing_values h df = (h', Inr p) \<Longrightarrow> p = length h \<and> length h' = Suc (length h)"
  by (auto simp: handle_missing_values_def raise_or_def Let_def new_table_def split: sum.splits)

lemma create_new_features_frame:
  "n \<le> df \<Longrightarrow> take n (fst (create_new_features render h df)) = take n h"
  by (simp add: create_new_features_def raise_or_def Let_def take_assign split: sum.splits)

lemma clean_data_frame: "take (length h) (fst (clean_data parse render h df)) = h"
proof -
  let ?h0 = "h @ [h ! df]"
  obtain h1 r1 where d: "handle_dates parse ?h0 (length h) = (h1, r1)" by (cases "handle_dates parse ?h0 (length h)")
  have f1: "take (length h) h1 = h"
    using handle_dates_frame [of "length h" "length h" parse ?h0] d by simp
  show ?thesis
  proof (cases r1)
    case (Inl e)
    then show ?thesis using d f1 by (simp add: clean_data_def new_table_def)
  next
    case (Inr p1)
    then have p1: "p1 = length h" "length h1 = Suc (length h)"
      using handle_dates_ref [of parse ?h0 "length h" h1 p1] d by simp_all
    obtain h2 r2 where m: "handle_missing_values h1 p1 = (h2, r2)"
      by (cases "handle_missing_values h1 p1")
    have f2: "take (length h) h2 = h"
      using handle_missing_values_frame [of "length h" p1 h1] m p1 f1 by simp
    show ?thesis
    proof (cases r2)
      case (Inl e)
      then show ?thesis using d Inr m f2 by (simp add: clean_data_def new_table_def)
    next
      case r2: (Inr p2)
      then have p2: "p2 = Suc (length h)"
        using handle_missing_values_ref [of h1 p1 h2 p2] m p1 by simp
      obtain h3 r3 where c: "create_new_features render h2 p2 = (h3, r3)"
        by (cases "create_new_features render h2 p2")
      have f3: "take (length h) h3 = h"
        using create_new_features_frame [of "length h" p2 render h2] c p2 f2 by simp
      show ?thesis using d Inr m r2 c f3
        by (cases r3) (simp_all add: clean_data_def new_table_def)
    qed
  qed
qed

lemma getitem_cleaned_other:
  assumes "c \<in> set (columns t)" and "c \<notin> set written"
  shows "getitem (featured render (filled (dated parse t))) c = getitem t c"
proof -
  have "c \<in> set (columns (featured render (filled (dated parse t))))"
    using assms(1) by (simp add: columns_cleaned)
  then show ?thesis
    using assms by (simp add: getitem_def rows_cleaned cleaned_row_other)
qed

subsection \<open>Where a missing column makes each function raise\<close>

lemma handle_missing_values_raise_title:
  assumes "''title'' \<notin> set (columns (h ! df))"
  shows "handle_missing_values h df = (h, Inl (KeyError ''title''))"
  using assms by (simp add: handle_missing_values_def column_def raise_or_def getitem_def)

lemma handle_missing_values_raise_abstract:
  assumes "df < length h" and "''title'' \<in> set (columns (h ! df))"
    and "''abstract'' \<notin> set (columns (h ! df))"
  shows "snd (handle_missing_values h df) = Inl (KeyError ''abstract'')"
proof -
  obtain cs xs where t: "h ! df = \<lparr>columns = cs, rows = xs\<rparr>"
    by (cases "h ! df") auto
  have cs: "''title'' \<in> set cs" "''abstract'' \<notin> set cs" using assms t by simp_all
  show ?thesis
    using assms(1) cs
    by (simp add: handle_missing_values_def column_def assign_def raise_or_def t Let_def
      fillna_def comp_def getitem_lit setitem_lit getitem_base setitem_base)
qed

lemma handle_missing_values_raise_journal:
  assumes "df < length h" and "''title'' \<in> set (columns (h ! df))"
    and "''abstract'' \<in> set (columns (h ! df))" and "''journal'' \<notin> set (columns (h ! df))"
  shows "handle_missing_values h df =
           (h[df := \<lparr>columns = columns (h ! df),
                     rows = map (\<lambda>r. r(''title'' := fill (Str ''Unknown Title'') (r ''title''),
                                        ''abstract'' := fill (Str []) (r ''abstract'')))
                              (rows (h ! df))\<rparr>],
            Inl (KeyError ''journal''))"
proof -
  obtain cs xs where t: "h ! df = \<lparr>columns = cs, rows = xs\<rparr>"
    by (cases "h ! df") auto
  have cs: "''title'' \<in> set cs" "''abstract'' \<in> set cs" "''journal'' \<notin> set cs"
    using assms t by simp_all
  show ?thesis
    using assms(1) cs
    by (simp add: handle_missing_values_def column_def assign_def raise_or_def t Let_def
      fillna_def comp_def getitem_lit setitem_lit getitem_base setitem_base)
qed

lemma create_new_features_raise_source:
  assumes "df < length h" and "''title'' \<in> set (columns (h ! df))"
    and "''abstract'' \<in> set (columns (h ! df))" and "''source_x'' \<notin> set (columns (h ! df))"
  shows "snd (create_new_features render h df) = Inl (KeyError ''source_x'')"
proof -
  obtain cs xs where t: "h ! df = \<lparr>columns = cs, rows = xs\<rparr>"
    by (cases "h ! df") auto
  have cs: "''title'' \<in> set cs" "''abstract'' \<in> set cs" "''source_x'' \<notin> set cs"
    using assms t by simp_all
  show ?thesis
    using assms(1) cs
    by (simp add: create_new_features_def column_def assign_def raise_or_def t Let_def
      fillna_def comp_def apply_series_def getitem_lit setitem_lit getitem_base setitem_base)
qed

lemma clean_data_raise_publish_time:
  assumes "''publish_time'' \<notin> set (columns (h ! df))"
  shows "clean_data parse render h df = (h @ [h ! df], Inl (KeyError ''publish_time''))"
  using assms by (simp add: clean_data_def new_table_def handle_dates_raise)

lemma clean_data_raise_title:
  assumes "''publish_time'' \<in> set (columns (h ! df))" and "''title'' \<notin> set (columns (h ! df))"
  shows "snd (clean_data parse render h df) = Inl (KeyError ''title'')"
  using assms
  by (simp add: clean_data_def new_table_def handle_dates_ok handle_missing_values_raise_title)

lemma clean_data_raise_abstract:
  assumes "''publish_time'' \<in> set (columns (h ! df))" and "''title'' \<in> set (columns (h ! df))"
    and "''abstract'' \<notin> set (columns (h ! df))"
  shows "snd (clean_data parse render h df) = Inl (KeyError ''abstract'')"
proof -
  let ?h1 = "h @ [dated parse (h ! df)]"
  have "snd (handle_missing_values ?h1 (length h)) = Inl (KeyError ''abstract'')"
    using assms by (intro handle_missing_values_raise_abstract) simp_all
  then obtain h2 where "handle_missing_values ?h1 (length h) = (h2, Inl (KeyError ''abstract''))"
    by (cases "handle_missing_values ?h1 (length h)") simp
  then show ?thesis
    using assms by (simp add: clean_data_def new_table_def handle_dates_ok)
qed

lemma clean_data_raise_journal:
  assumes "''publish_time'' \<in> set (columns (h ! df))" and "''title'' \<in> set (columns (h ! df))"
    and "''abstract'' \<in> set (columns (h ! df))" and "''journal'' \<notin> set (columns (h ! df))"
  shows "clean_data parse render h df =
           (h @ [\<lparr>columns = columns (dated parse (h ! df)),
                   rows = map (\<lambda>r. r(''title'' := fill (Str ''Unknown Title'') (r ''title''),
                                      ''abstract'' := fill (Str []) (r ''abstract'')))
                            (rows (dated parse (h ! df)))\<rparr>],
            Inl (KeyError ''journal''))"
  using assms
  by (simp add: clean_data_def new_table_def handle_dates_ok handle_missing_values_raise_journal)

lemma clean_data_raise_source:
  assumes "''publish_time'' \<in> set (columns (h ! df))" and "''title'' \<in> set (columns (h ! df))"
    and "''abstract'' \<in> set (columns (h ! df))" and "''journal'' \<in> set (columns (h ! df))"
    and "''source_x'' \<notin> set (columns (h ! df))"
  shows "snd (clean_data parse render h df) = Inl (KeyError ''source_x'')"
proof -
  let ?t = "filled (dated parse (h ! df))"
  let ?h2 = "h @ [?t, ?t]"
  have "snd (create_new_features render ?h2 (Suc (length h))) = Inl (KeyError ''source_x'')"
    using assms by (intro create_new_features_raise_source) (simp_all add: nth_append)
  then obtain h3 where
    "create_new_features render ?h2 (Suc (length h)) = (h3, Inl (KeyError ''source_x''))"
    by (cases "create_new_features render ?h2 (Suc (length h))") simp
  then show ?thesis
    using assms
    by (simp add: clean_data_def new_table_def handle_dates_ok handle_missing_values_ok)
qed

lemma clean_data_raises:
  assumes "\<not> set required \<subseteq> set (columns (h ! df))"
  shows "\<exists>c. c \<in> set required \<and> c \<notin> set (columns (h ! df)) \<and>
           snd (clean_data parse render h df) = Inl (KeyError c)"
proof -
  consider "''publish_time'' \<notin> set (columns (h ! df))"
    | "''publish_time'' \<in> set (columns (h ! df))" "''title'' \<notin> set (columns (h ! df))"
    | "''publish_time'' \<in> set (columns (h ! df))" "''title'' \<in> set (columns (h ! df))"
      "''abstract'' \<notin> set (columns (h ! df))"
    | "''publish_time'' \<in> set (columns (h ! df))" "''title'' \<in> set (columns (h ! df))"
      "''abstract'' \<in> set (columns (h ! df))" "''journal'' \<notin> set (columns (h ! df))"
    | "''publish_time'' \<in> set (columns (h ! df))" "''title'' \<in> set (columns (h ! df))"
      "''abstract'' \<in> set (columns (h ! df))" "''journal'' \<in> set (columns (h ! df))"
      "''source_x'' \<notin> set (columns (h ! df))"
    using assms unfolding required_def by fastforce
  then show ?thesis
  proof cases
    case 1
    then show ?thesis
      using clean_data_raise_publish_time [OF 1, of parse render]
      by (intro exI [of _ "''publish_time''"]) (simp add: required_def)
  next
    case 2
    then show ?thesis
      using clean_data_raise_title [OF 2, of parse render]
      by (intro exI [of _ "''title''"]) (simp add: required_def)
  next
    case 3
    then show ?thesis
      using clean_data_raise_abstract [OF 3, of parse render]
      by (intro exI [of _ "''abstract''"]) (simp add: required_def)
  next
    case 4
    then show ?thesis
      using clean_data_raise_journal [OF 4, of parse render]
      by (intro exI [of _ "''journal''"]) (simp add: required_def)
  next
    case 5
    then show ?thesis
      using clean_data_raise_source [OF 5, of parse render]
      by (intro exI [of _ "''source_x''"]) (simp add: required_def)
  qed
qed

subsection \<open>The mode of a column\<close>

lemma fold_max_Max: "fold max xs (a::nat) = Max (insert a (set xs))"
  using Max.set_eq_fold [of a xs] by simp

lemma mode_Nil: "nums s = [] \<Longrightarrow> mode s = []"
  by (simp add: mode_def)

lemma set_mode:
  "set (mode s) =
     {y \<in> set (nums s). count_list (nums s) y = Max (insert 0 (count_list (nums s) ` set (nums s)))}"
  by (auto simp: mode_def Let_def fold_max_Max)

lemma mode_top:
  assumes "nums s \<noteq> []"
  shows "\<exists>m\<in>set (nums s). count_list (nums s) m = Max (insert 0 (count_list (nums s) ` set (nums s)))"
proof -
  let ?C = "count_list (nums s) ` set (nums s)"
  have fin: "finite ?C" and ne: "?C \<noteq> {}" using assms by simp_all
  have "Max (insert 0 ?C) = Max ?C"
    using fin ne by (simp add: max_def)
  moreover have "Max ?C \<in> ?C" using fin ne by (rule Max_in)
  ultimately show ?thesis by auto
qed

lemma mode_first:
  assumes "nums s \<noteq> []"
  shows "mode s \<noteq> []"
    and "mode s ! 0 \<in> set (nums s)"
    and "count_list (nums s) y \<le> count_list (nums s) (mode s ! 0)"
    and "count_list (nums s) y = count_list (nums s) (mode s ! 0) \<Longrightarrow> y \<in> set (nums s)
           \<Longrightarrow> mode s ! 0 \<le> y"
proof -
  let ?ys = "nums s"
  let ?C = "count_list ?ys ` set ?ys"
  let ?top = "Max (insert 0 ?C)"
  from mode_top [OF assms] obtain m where m: "m \<in> set ?ys" "count_list ?ys m = ?top" by blast
  then have "m \<in> set (mode s)" by (simp add: set_mode)
  then show ne: "mode s \<noteq> []" by auto
  then have first: "mode s ! 0 \<in> set (mode s)" by simp
  then show "mode s ! 0 \<in> set ?ys" by (simp add: set_mode)
  have top: "count_list ?ys (mode s ! 0) = ?top" using first by (simp add: set_mode)
  show "count_list ?ys y \<le> count_list ?ys (mode s ! 0)"
  proof (cases "y \<in> set ?ys")
    case True
    then have "count_list ?ys y \<le> ?top" by (intro Max_ge) auto
    then show ?thesis by (simp add: top)
  next
    case False
    then show ?thesis by (simp add: count_list_0_iff)
  qed
  have sorted: "sorted (mode s)" by (simp add: mode_def Let_def)
  show "mode s ! 0 \<le> y"
    if "count_list ?ys y = count_list ?ys (mode s ! 0)" "y \<in> set ?ys"
  proof -
    have "y \<in> set (mode s)" using that top by (simp add: set_mode)
    then obtain i where "i < length (mode s)" "mode s ! i = y" by (auto simp: in_set_conv_nth)
    then show ?thesis using sorted_nth_mono [OF sorted, of 0 i] by simp
  qed
qed

subsection \<open>What the regular expression matches\<close>















subsection \<open>Counting and ranking\<close>





















lemma set_by_count [simp]: "set (by_count items) = set items"
  by (simp add: by_count_def)




subsection \<open>What the analysis functions return\<close>







section \<open>The claims\<close>

subsection \<open>Sample data for the concrete instances\<close>

definition sample_parse :: parser where
  "sample_parse v =
     (if v = Str ''2020-03-01'' then Some (2020, 3, 1)
      else if v = Str ''2021-07-15'' then Some (2021, 7, 15)
      else None)"

definition sample_render :: renderer where
  "sample_render v = ''<value>''"

definition sample_table :: table where
  "sample_table =
     \<lparr>columns = [''title'', ''abstract'', ''journal'', ''publish_time'', ''source_x''],
      rows =
        [[''title'' \<mapsto> Str ''Covid Study'', ''abstract'' \<mapsto> Str ''we study covid'',
          ''journal'' \<mapsto> Str ''A'', ''publish_time'' \<mapsto> Str ''2020-03-01'',
          ''source_x'' \<mapsto> Str ''PMC''],
         [''title'' \<mapsto> Str ''covid study results'', ''publish_time'' \<mapsto> Str ''not-a-date'']]\<rparr>"

lemma sample_required: "set required \<subseteq> set (columns ([sample_table] ! 0))"
  by (simp add: required_def sample_table_def)

lemma isspace_simps [simp]:
  "isspace CHR '' ''" "\<not> isspace CHR ''w''"
  by (simp_all add: isspace_def)

subsection \<open>C1: the row-drop rule\<close>

definition blank_table :: table where
  "blank_table =
     \<lparr>columns = [''title'', ''abstract'', ''journal'', ''publish_time'', ''source_x''],
      rows = [Map.empty]\<rparr>"

text \<open>
  C1. The claim: a row is dropped exactly when its original title and abstract were both
  absent. \<^verbatim>\<open>handle_missing_values\<close> fills the two columns before it tests them, so the
  test never holds and no row is ever dropped. Here the table has one row in which every
  cell is absent, title and abstract included: \<open>clean_data\<close> returns a table that still
  has that row, with the placeholder title and the empty abstract.
\<close>

theorem clean_data_keeps_blank_row:
  "snd (clean_data parse render [blank_table] 0) = Inr 2 \<and>
   length (rows (fst (clean_data parse render [blank_table] 0) ! 2)) = 1 \<and>
   (rows (fst (clean_data parse render [blank_table] 0) ! 2) ! 0) ''title''
     = Some (Str ''Unknown Title'') \<and>
   (rows (fst (clean_data parse render [blank_table] 0) ! 2) ! 0) ''abstract'' = Some (Str [])"
proof -
  have "set required \<subseteq> set (columns ([blank_table] ! 0))"
    by (simp add: required_def blank_table_def)
  from clean_data_ok [OF this, of parse render]
  show ?thesis
    by (simp add: rows_cleaned blank_table_def cleaned_row_def feature_row_def fill_row_def
        year_row_def date_row_def fill_def)
qed

subsection \<open>C2: a required column is missing\<close>

definition no_journal_table :: table where
  "no_journal_table =
     \<lparr>columns = [''title'', ''abstract'', ''publish_time'', ''source_x''],
      rows = [[''abstract'' \<mapsto> Str ''we study covid'', ''publish_time'' \<mapsto> Str ''2020-03-01'',
               ''source_x'' \<mapsto> Str ''PMC'']]\<rparr>"

text \<open>
  C2, as stated, fails in one part: the abort does not always come before any row is
  processed. The code has no check of the columns; each function raises \<^verbatim>\<open>KeyError\<close>
  when it reads a column that is not there. On a table without \<open>journal\<close>,
  \<open>handle_dates\<close> has run over every row of the working copy and
  \<open>handle_missing_values\<close> has filled its titles and abstracts when the read of
  \<open>journal\<close> raises: the copy (object 1 of the heap) holds the parsed year and the
  placeholder title of a row that had neither.
\<close>

theorem rows_processed_before_abort:
  "''journal'' \<in> set required \<and> ''journal'' \<notin> set (columns ([no_journal_table] ! 0)) \<and>
   snd (clean_data sample_parse sample_render [no_journal_table] 0) = Inl (KeyError ''journal'') \<and>
   (rows ([no_journal_table] ! 0) ! 0) ''title'' = None \<and>
   (rows ([no_journal_table] ! 0) ! 0) ''publication_year'' = None \<and>
   (rows (fst (clean_data sample_parse sample_render [no_journal_table] 0) ! 1) ! 0) ''title''
      = Some (Str ''Unknown Title'') \<and>
   (rows (fst (clean_data sample_parse sample_render [no_journal_table] 0) ! 1) ! 0)
      ''publication_year'' = Some (Num 2020)"
proof -
  have c: "''publish_time'' \<in> set (columns ([no_journal_table] ! 0))"
    "''title'' \<in> set (columns ([no_journal_table] ! 0))"
    "''abstract'' \<in> set (columns ([no_journal_table] ! 0))"
    "''journal'' \<notin> set (columns ([no_journal_table] ! 0))"
    by (simp_all add: no_journal_table_def)
  have y: "year_of (coerce_date sample_parse (Some (Str ''2020-03-01''))) = Some (Num 2020)"
    by (simp add: year_of_def coerce_date_def sample_parse_def)
  have m: "mode [Some (Num 2020)] = [2020]"
    by (simp add: mode_def nums_def)
  show ?thesis
    unfolding clean_data_raise_journal [OF c, of sample_parse sample_render]
    by (simp add: required_def no_journal_table_def dated_def date_row_def year_row_def
        raw_years_def y m fill_def)
qed

definition no_dates_table :: table where
  "no_dates_table =
     \<lparr>columns = [''title'', ''abstract'', ''journal'', ''source_x''],
      rows = [[''title'' \<mapsto> Str ''Covid Study'']]\<rparr>"

text \<open>
  C2, amended. When a required column is missing, \<open>clean_data\<close> raises
  \<^verbatim>\<open>KeyError\<close> for a required column that is missing, returns no table, and leaves
  every table that existed before the call as it was. When the missing column is
  \<open>publish_time\<close> the raise comes before any row is processed: only the copy has
  been made. When all required columns are there, \<open>clean_data\<close> raises nothing,
  whatever the cells hold.
\<close>

theorem clean_data_missing_column:
  "(\<not> set required \<subseteq> set (columns (h ! df)) \<longrightarrow>
      (\<exists>c h'. c \<in> set required \<and> c \<notin> set (columns (h ! df)) \<and>
         clean_data parse render h df = (h', Inl (KeyError c)) \<and> take (length h) h' = h)) \<and>
   (''publish_time'' \<notin> set (columns (h ! df)) \<longrightarrow>
      clean_data parse render h df = (h @ [h ! df], Inl (KeyError ''publish_time''))) \<and>
   (set required \<subseteq> set (columns (h ! df)) \<longrightarrow>
      (\<exists>h' p. clean_data parse render h df = (h', Inr p)))"
proof (intro conjI impI)
  assume "\<not> set required \<subseteq> set (columns (h ! df))"
  from clean_data_raises [OF this, of parse render]
  obtain c where c: "c \<in> set required" "c \<notin> set (columns (h ! df))"
    "snd (clean_data parse render h df) = Inl (KeyError c)" by blast
  have "clean_data parse render h df = (fst (clean_data parse render h df), Inl (KeyError c))"
    using c(3) by (cases "clean_data parse render h df") simp
  then show "\<exists>c h'. c \<in> set required \<and> c \<notin> set (columns (h ! df)) \<and>
         clean_data parse render h df = (h', Inl (KeyError c)) \<and> take (length h) h' = h"
    using c clean_data_frame [of h parse render df] by blast
next
  assume "''publish_time'' \<notin> set (columns (h ! df))"
  then show "clean_data parse render h df = (h @ [h ! df], Inl (KeyError ''publish_time''))"
    by (rule clean_data_raise_publish_time)
next
  assume "set required \<subseteq> set (columns (h ! df))"
  from clean_data_ok [OF this, of parse render]
  show "\<exists>h' p. clean_data parse render h df = (h', Inr p)" by blast
qed

theorem clean_data_missing_column_witness:
  "\<not> set required \<subseteq> set (columns ([no_journal_table] ! 0)) \<and>
   (\<exists>c h'. c \<in> set required \<and> c \<notin> set (columns ([no_journal_table] ! 0)) \<and>
      clean_data sample_parse sample_render [no_journal_table] 0 = (h', Inl (KeyError c)) \<and>
      take (length [no_journal_table]) h' = [no_journal_table]) \<and>
   ''publish_time'' \<notin> set (columns ([no_dates_table] ! 0)) \<and>
   clean_data sample_parse sample_render [no_dates_table] 0
     = ([no_dates_table] @ [[no_dates_table] ! 0], Inl (KeyError ''publish_time'')) \<and>
   set required \<subseteq> set (columns ([sample_table] ! 0)) \<and>
   (\<exists>h' p. clean_data sample_parse sample_render [sample_table] 0 = (h', Inr p))"
proof -
  have a: "\<not> set required \<subseteq> set (columns ([no_journal_table] ! 0))"
    by (simp add: required_def no_journal_table_def)
  have b: "''publish_time'' \<notin> set (columns ([no_dates_table] ! 0))"
    by (simp add: no_dates_table_def)
  show ?thesis
    using a b sample_required
      clean_data_missing_column [of "[no_journal_table]" 0 sample_parse sample_render]
      clean_data_missing_column [of "[no_dates_table]" 0 sample_parse sample_render]
      clean_data_missing_column [of "[sample_table]" 0 sample_parse sample_render]
    by blast
qed

subsection \<open>C3: the year of a row without a date\<close>

text \<open>
  \<open>batch_years parse t\<close>: the years of the rows of \<open>t\<close> whose \<open>publish_time\<close>
  parses, in row order.
\<close>

definition batch_years :: "parser \<Rightarrow> table \<Rightarrow> int list" where
  "batch_years parse t =
     concat (map (\<lambda>r. case coerce_date parse (r ''publish_time'') of
                         Some (Timestamp y m d) \<Rightarrow> [y] | _ \<Rightarrow> []) (rows t))"

lemma nums_raw_years: "nums (raw_years parse (rows t)) = batch_years parse t"
proof -
  have "(case year_of x of Some (Num n) \<Rightarrow> [n] | _ \<Rightarrow> []) =
        (case x of Some (Timestamp y m d) \<Rightarrow> [y] | _ \<Rightarrow> [])" for x
    by (simp add: year_of_def split: option.splits scalar.splits)
  then show ?thesis
    by (simp add: nums_def raw_years_def batch_years_def comp_def)
qed

lemma batch_years_Nil:
  assumes "batch_years parse t = []" and "r \<in> set (rows t)"
  shows "year_of (coerce_date parse (r ''publish_time'')) = None"
proof -
  have "(case coerce_date parse (r ''publish_time'') of
           Some (Timestamp y m d) \<Rightarrow> [y] | _ \<Rightarrow> []) = []"
    using assms by (simp add: batch_years_def)
  then show ?thesis
    by (simp add: year_of_def split: option.splits scalar.splits)
qed

text \<open>
  C3. When the table has the required columns, \<open>clean_data\<close> raises nothing, however
  unparseable the dates are. If no row has a date that parses, \<open>publication_year\<close> is
  absent in every row of the result. Otherwise there is a year \<open>m\<close> among the parsed
  ones that no year occurs more often than (of the years that occur as often, the
  smallest), and every row whose \<open>publish_time\<close> was absent or did not parse has
  \<open>publication_year = m\<close>.
\<close>

theorem missing_year_gets_batch_mode:
  assumes "set required \<subseteq> set (columns (h ! df))"
  shows "\<exists>h' p. clean_data parse render h df = (h', Inr p) \<and>
           length (rows (h' ! p)) = length (rows (h ! df)) \<and>
           (batch_years parse (h ! df) = [] \<longrightarrow>
              (\<forall>r\<in>set (rows (h' ! p)). r ''publication_year'' = None)) \<and>
           (batch_years parse (h ! df) \<noteq> [] \<longrightarrow>
              (\<exists>m. m \<in> set (batch_years parse (h ! df)) \<and>
                 (\<forall>y. count_list (batch_years parse (h ! df)) y
                        \<le> count_list (batch_years parse (h ! df)) m) \<and>
                 (\<forall>y\<in>set (batch_years parse (h ! df)).
                    count_list (batch_years parse (h ! df)) y
                      = count_list (batch_years parse (h ! df)) m \<longrightarrow> m \<le> y) \<and>
                 (\<forall>i<length (rows (h ! df)).
                    coerce_date parse ((rows (h ! df) ! i) ''publish_time'') = None \<longrightarrow>
                    (rows (h' ! p) ! i) ''publication_year'' = Some (Num m))))"
proof -
  let ?t = "h ! df"
  let ?ms = "mode (raw_years parse (rows ?t))"
  obtain h' p where run: "clean_data parse render h df = (h', Inr p)"
    and rows: "rows (h' ! p) = map (cleaned_row parse render ?ms) (rows ?t)"
    using clean_data_rows [OF assms] by blast
  have none: "\<forall>r\<in>set (rows (h' ! p)). r ''publication_year'' = None"
    if "batch_years parse ?t = []"
  proof -
    have "?ms = []" using that by (simp add: mode_Nil nums_raw_years)
    then show ?thesis
      using that by (simp add: rows cleaned_row_publication_year batch_years_Nil)
  qed
  have some: "\<exists>m. m \<in> set (batch_years parse ?t) \<and>
                 (\<forall>y. count_list (batch_years parse ?t) y \<le> count_list (batch_years parse ?t) m) \<and>
                 (\<forall>y\<in>set (batch_years parse ?t).
                    count_list (batch_years parse ?t) y = count_list (batch_years parse ?t) m
                      \<longrightarrow> m \<le> y) \<and>
                 (\<forall>i<length (rows ?t).
                    coerce_date parse ((rows ?t ! i) ''publish_time'') = None \<longrightarrow>
                    (rows (h' ! p) ! i) ''publication_year'' = Some (Num m))"
    if "batch_years parse ?t \<noteq> []"
  proof -
    have ne: "nums (raw_years parse (rows ?t)) \<noteq> []" using that by (simp add: nums_raw_years)
    have "?ms ! 0 \<in> set (batch_years parse ?t)"
      using mode_first(2) [OF ne] by (simp add: nums_raw_years)
    moreover have "\<forall>y. count_list (batch_years parse ?t) y
                      \<le> count_list (batch_years parse ?t) (?ms ! 0)"
      using mode_first(3) [OF ne] by (simp add: nums_raw_years)
    moreover have "\<forall>y\<in>set (batch_years parse ?t).
                    count_list (batch_years parse ?t) y = count_list (batch_years parse ?t) (?ms ! 0)
                      \<longrightarrow> ?ms ! 0 \<le> y"
      using mode_first(4) [OF ne] by (simp add: nums_raw_years)
    moreover have "\<forall>i<length (rows ?t).
                    coerce_date parse ((rows ?t ! i) ''publish_time'') = None \<longrightarrow>
                    (rows (h' ! p) ! i) ''publication_year'' = Some (Num (?ms ! 0))"
      using mode_first(1) [OF ne]
      by (simp add: rows cleaned_row_publication_year year_of_def fill_def)
    ultimately show ?thesis by blast
  qed
  show ?thesis
    using run rows none some by (intro exI [of _ h'] exI [of _ p]) simp
qed

theorem missing_year_gets_batch_mode_witness:
  "set required \<subseteq> set (columns ([sample_table] ! 0)) \<and>
   batch_years sample_parse ([sample_table] ! 0) \<noteq> [] \<and>
   1 < length (rows ([sample_table] ! 0)) \<and>
   coerce_date sample_parse ((rows ([sample_table] ! 0) ! 1) ''publish_time'') = None \<and>
   (\<exists>h' p. clean_data sample_parse sample_render [sample_table] 0 = (h', Inr p) \<and>
      (rows (h' ! p) ! 1) ''publication_year'' = Some (Num 2020)) \<and>
   set required \<subseteq> set (columns ([blank_table] ! 0)) \<and>
   batch_years sample_parse ([blank_table] ! 0) = [] \<and>
   (\<exists>h' p. clean_data sample_parse sample_render [blank_table] 0 = (h', Inr p) \<and>
      (\<forall>r\<in>set (rows (h' ! p)). r ''publication_year'' = None))"
proof -
  have by1: "batch_years sample_parse ([sample_table] ! 0) = [2020]"
    by (simp add: batch_years_def sample_table_def coerce_date_def sample_parse_def)
  have len: "1 < length (rows ([sample_table] ! 0))" by (simp add: sample_table_def)
  have un: "coerce_date sample_parse ((rows ([sample_table] ! 0) ! 1) ''publish_time'') = None"
    by (simp add: sample_table_def coerce_date_def sample_parse_def)
  from missing_year_gets_batch_mode [OF sample_required, of sample_parse sample_render]
  obtain h' p m where run: "clean_data sample_parse sample_render [sample_table] 0 = (h', Inr p)"
    and m: "m \<in> set (batch_years sample_parse ([sample_table] ! 0))"
    and fill: "\<forall>i<length (rows ([sample_table] ! 0)).
                 coerce_date sample_parse ((rows ([sample_table] ! 0) ! i) ''publish_time'') = None \<longrightarrow>
                 (rows (h' ! p) ! i) ''publication_year'' = Some (Num m)"
    unfolding by1 by blast
  have "m = 2020" using m unfolding by1 by simp
  with fill len un have a: "(rows (h' ! p) ! 1) ''publication_year'' = Some (Num 2020)" by blast
  have breq: "set required \<subseteq> set (columns ([blank_table] ! 0))"
    by (simp add: required_def blank_table_def)
  have by0: "batch_years sample_parse ([blank_table] ! 0) = []"
    by (simp add: batch_years_def blank_table_def coerce_date_def)
  from missing_year_gets_batch_mode [OF breq, of sample_parse sample_render] by0
  have b: "\<exists>h' p. clean_data sample_parse sample_render [blank_table] 0 = (h', Inr p) \<and>
      (\<forall>r\<in>set (rows (h' ! p)). r ''publication_year'' = None)"
    by blast
  have ne: "batch_years sample_parse ([sample_table] ! 0) \<noteq> []" unfolding by1 by simp
  have A: "\<exists>h' p. clean_data sample_parse sample_render [sample_table] 0 = (h', Inr p) \<and>
      (rows (h' ! p) ! 1) ''publication_year'' = Some (Num 2020)"
    using run a by blast
  show ?thesis
    by (intro conjI) (rule sample_required ne len un A breq by0 b)+
qed

subsection \<open>C4: the most common title words\<close>










subsection \<open>C5: the most frequent values of a column\<close>




subsection \<open>C6: the table without rows\<close>



subsection \<open>C7: cleaning a cleaned table\<close>

text \<open>
  C7. Cleaning is idempotent: when \<open>clean_data\<close> has returned a table, running
  \<open>clean_data\<close> on that table returns a table equal to it, in its columns, their order
  and every cell.
\<close>

theorem clean_data_idempotent:
  assumes "set required \<subseteq> set (columns (h ! df))"
  shows "\<exists>h1 p1 h2 p2. clean_data parse render h df = (h1, Inr p1) \<and>
           clean_data parse render h1 p1 = (h2, Inr p2) \<and> h2 ! p2 = h1 ! p1"
proof -
  from clean_data_rows [OF assms, of parse render]
  obtain h1 p1 where run1: "clean_data parse render h df = (h1, Inr p1)"
    and res1: "h1 ! p1 = cleaned parse render (h ! df)"
    unfolding cleaned_def by blast
  have "set (columns (h ! df)) \<subseteq> set (columns (h1 ! p1))"
    unfolding res1 cleaned_def columns_cleaned by blast
  with assms have "set required \<subseteq> set (columns (h1 ! p1))" by blast
  from clean_data_rows [OF this, of parse render]
  obtain h2 p2 where run2: "clean_data parse render h1 p1 = (h2, Inr p2)"
    and res2: "h2 ! p2 = cleaned parse render (h1 ! p1)"
    unfolding cleaned_def by blast
  have "h2 ! p2 = h1 ! p1"
    unfolding res2 res1 by (rule cleaned_idem)
  with run1 run2 show ?thesis by blast
qed

theorem clean_data_idempotent_witness:
  "set required \<subseteq> set (columns ([sample_table] ! 0)) \<and>
   (\<exists>h1 p1 h2 p2. clean_data sample_parse sample_render [sample_table] 0 = (h1, Inr p1) \<and>
      clean_data sample_parse sample_render h1 p1 = (h2, Inr p2) \<and> h2 ! p2 = h1 ! p1)"
  using sample_required clean_data_idempotent [OF sample_required, of sample_parse sample_render]
  by blast

subsection \<open>C8: what holds of every cleaned row\<close>



subsection \<open>C9: the input table and the columns cleaning does not write\<close>

definition tagged_table :: table where
  "tagged_table =
     \<lparr>columns = [''title'', ''abstract'', ''journal'', ''publish_time'', ''source_x'',
                 ''source_type''],
      rows =
        [[''title'' \<mapsto> Str ''Covid Study'', ''abstract'' \<mapsto> Str ''we study covid'',
          ''journal'' \<mapsto> Str ''A'', ''publish_time'' \<mapsto> Str ''2020-03-01'',
          ''source_x'' \<mapsto> Str ''PMC'', ''source_type'' \<mapsto> Str ''preprint'']]\<rparr>"

text \<open>
  C9, as stated, fails: not every additional column comes out unchanged. A table that
  already has a column \<open>source_type\<close> (as every cleaned table has) gets it overwritten
  with the values of \<open>source_x\<close>.
\<close>

theorem source_type_overwritten:
  "''source_type'' \<in> set (columns ([tagged_table] ! 0)) \<and>
   ''source_type'' \<notin> set required \<and>
   snd (clean_data sample_parse sample_render [tagged_table] 0) = Inr 2 \<and>
   getitem ([tagged_table] ! 0) ''source_type'' = Inr [Some (Str ''preprint'')] \<and>
   getitem (fst (clean_data sample_parse sample_render [tagged_table] 0) ! 2) ''source_type''
     = Inr [Some (Str ''PMC'')]"
proof -
  have "set required \<subseteq> set (columns ([tagged_table] ! 0))"
    by (simp add: required_def tagged_table_def)
  from clean_data_ok [OF this, of sample_parse sample_render]
  show ?thesis
    by (simp add: getitem_def columns_cleaned rows_cleaned cleaned_row_source_type
        tagged_table_def required_def fill_def)
qed

text \<open>
  C9, amended. \<open>clean_data\<close> leaves the table it was given as it was, whether it
  returns or raises, and returns a different object. Every column of the input is a
  column of the result, and a column that is not one of the ten the cleaner writes
  (\<open>written\<close>: the three text columns it fills, \<open>publish_time\<close> and the six derived
  columns) has the same values, row by row.
\<close>

theorem clean_data_passes_other_columns:
  assumes "df < length h"
  shows "fst (clean_data parse render h df) ! df = h ! df \<and>
         (set required \<subseteq> set (columns (h ! df)) \<longrightarrow>
            (\<exists>h' p. clean_data parse render h df = (h', Inr p) \<and> p \<noteq> df \<and>
               (\<forall>c\<in>set (columns (h ! df)).
                  c \<in> set (columns (h' ! p)) \<and>
                  (c \<notin> set written \<longrightarrow> getitem (h' ! p) c = getitem (h ! df) c))))"
proof (intro conjI impI)
  show "fst (clean_data parse render h df) ! df = h ! df"
    using assms nth_take [of df "length h" "fst (clean_data parse render h df)"]
    by (simp add: clean_data_frame)
next
  assume req: "set required \<subseteq> set (columns (h ! df))"
  let ?T = "featured render (filled (dated parse (h ! df)))"
  let ?h' = "h @ [filled (dated parse (h ! df)), ?T]"
  have run: "clean_data parse render h df = (?h', Inr (Suc (length h)))"
    by (rule clean_data_ok [OF req])
  have res: "?h' ! Suc (length h) = ?T" by (simp add: nth_append)
  have "\<forall>c\<in>set (columns (h ! df)).
          c \<in> set (columns ?T) \<and> (c \<notin> set written \<longrightarrow> getitem ?T c = getitem (h ! df) c)"
    by (simp add: columns_cleaned getitem_cleaned_other)
  then show "\<exists>h' p. clean_data parse render h df = (h', Inr p) \<and> p \<noteq> df \<and>
               (\<forall>c\<in>set (columns (h ! df)).
                  c \<in> set (columns (h' ! p)) \<and>
                  (c \<notin> set written \<longrightarrow> getitem (h' ! p) c = getitem (h ! df) c))"
    using run res assms by (intro exI [of _ ?h'] exI [of _ "Suc (length h)"]) simp
qed

definition extra_table :: table where
  "extra_table =
     \<lparr>columns = [''cord_uid'', ''title'', ''abstract'', ''journal'', ''publish_time'', ''source_x''],
      rows =
        [[''cord_uid'' \<mapsto> Str ''ug7v899j'', ''title'' \<mapsto> Str ''Covid Study'',
          ''publish_time'' \<mapsto> Str ''2020-03-01'', ''source_x'' \<mapsto> Str ''PMC'']]\<rparr>"

theorem clean_data_passes_other_columns_witness:
  "0 < length [extra_table] \<and> set required \<subseteq> set (columns ([extra_table] ! 0)) \<and>
   ''cord_uid'' \<in> set (columns ([extra_table] ! 0)) \<and> ''cord_uid'' \<notin> set written \<and>
   fst (clean_data sample_parse sample_render [extra_table] 0) ! 0 = [extra_table] ! 0 \<and>
   (\<exists>h' p. clean_data sample_parse sample_render [extra_table] 0 = (h', Inr p) \<and> p \<noteq> 0 \<and>
      ''cord_uid'' \<in> set (columns (h' ! p)) \<and>
      getitem (h' ! p) ''cord_uid'' = Inr [Some (Str ''ug7v899j'')])"
proof -
  have len: "0 < length [extra_table]" by simp
  have req: "set required \<subseteq> set (columns ([extra_table] ! 0))"
    by (simp add: required_def extra_table_def)
  have c: "''cord_uid'' \<in> set (columns ([extra_table] ! 0))" "''cord_uid'' \<notin> set written"
    by (simp_all add: written_def extra_table_def)
  have g: "getitem ([extra_table] ! 0) ''cord_uid'' = Inr [Some (Str ''ug7v899j'')]"
    by (simp add: getitem_def extra_table_def)
  from clean_data_passes_other_columns [OF len, of sample_parse sample_render] req
  obtain h' p where "fst (clean_data sample_parse sample_render [extra_table] 0) ! 0 = [extra_table] ! 0"
    and "clean_data sample_parse sample_render [extra_table] 0 = (h', Inr p)" and "p \<noteq> 0"
    and "\<forall>c\<in>set (columns ([extra_table] ! 0)).
                  c \<in> set (columns (h' ! p)) \<and>
                  (c \<notin> set written \<longrightarrow> getitem (h' ! p) c = getitem ([extra_table] ! 0) c)"
    by blast
  then show ?thesis using len req c g by (metis (no_types, lifting))
qed

subsection \<open>C10: the flag and the count agree\<close>

text \<open>
  C10. In every row of a cleaned table \<open>has_abstract\<close> is true exactly when
  \<open>abstract_word_count\<close> is greater than zero: a string has a whitespace-separated
  token exactly when stripping it leaves something. This holds of the table
  \<open>clean_data\<close> returns and of the table the dashboard's \<open>app_clean_data\<close> returns.
\<close>

theorem has_abstract_iff_word_count:
  "(set required \<subseteq> set (columns (h ! df)) \<longrightarrow>
      (\<exists>h' p. clean_data parse render h df = (h', Inr p) \<and>
         (\<forall>r\<in>set (rows (h' ! p)). \<exists>b n.
            r ''has_abstract'' = Some (Bool b) \<and> r ''abstract_word_count'' = Some (Num n) \<and>
            (b \<longleftrightarrow> 0 < n)))) \<and>
   (set app_required \<subseteq> set (columns (h ! df)) \<longrightarrow>
      (\<exists>h' p. app_clean_data parse render h df = (h', Inr p) \<and>
         (\<forall>r\<in>set (rows (h' ! p)). \<exists>b n.
            r ''has_abstract'' = Some (Bool b) \<and> r ''abstract_word_count'' = Some (Num n) \<and>
            (b \<longleftrightarrow> 0 < n))))"
proof (intro conjI impI)
  assume req: "set required \<subseteq> set (columns (h ! df))"
  obtain h' p where run: "clean_data parse render h df = (h', Inr p)"
    and rows: "rows (h' ! p) =
      map (cleaned_row parse render (mode (raw_years parse (rows (h ! df))))) (rows (h ! df))"
    using clean_data_rows [OF req] by blast
  show "\<exists>h' p. clean_data parse render h df = (h', Inr p) \<and>
         (\<forall>r\<in>set (rows (h' ! p)). \<exists>b n.
            r ''has_abstract'' = Some (Bool b) \<and> r ''abstract_word_count'' = Some (Num n) \<and>
            (b \<longleftrightarrow> 0 < n))"
    by (intro exI [of _ h'] exI [of _ p])
       (simp add: run rows cleaned_row_has_abstract cleaned_row_abstract_word_count
          flag_count_agree)
next
  assume req: "set app_required \<subseteq> set (columns (h ! df))"
  have run: "app_clean_data parse render h df =
               (h @ [app_cleaned parse render (h ! df)], Inr (length h))"
    using req app_clean_data_ok [of h df parse render] by (simp add: app_required_def)
  show "\<exists>h' p. app_clean_data parse render h df = (h', Inr p) \<and>
         (\<forall>r\<in>set (rows (h' ! p)). \<exists>b n.
            r ''has_abstract'' = Some (Bool b) \<and> r ''abstract_word_count'' = Some (Num n) \<and>
            (b \<longleftrightarrow> 0 < n))"
    by (intro exI [of _ "h @ [app_cleaned parse render (h ! df)]"] exI [of _ "length h"])
       (simp add: run app_cleaned_def app_row_def flag_count_agree)
qed

theorem has_abstract_iff_word_count_witness:
  "set required \<subseteq> set (columns ([sample_table] ! 0)) \<and>
   set app_required \<subseteq> set (columns ([sample_table] ! 0)) \<and>
   (\<exists>h' p. clean_data sample_parse sample_render [sample_table] 0 = (h', Inr p) \<and>
      (\<forall>r\<in>set (rows (h' ! p)). \<exists>b n.
         r ''has_abstract'' = Some (Bool b) \<and> r ''abstract_word_count'' = Some (Num n) \<and>
         (b \<longleftrightarrow> 0 < n))) \<and>
   (\<exists>h' p. app_clean_data sample_parse sample_render [sample_table] 0 = (h', Inr p) \<and>
      (\<forall>r\<in>set (rows (h' ! p)). \<exists>b n.
         r ''has_abstract'' = Some (Bool b) \<and> r ''abstract_word_count'' = Some (Num n) \<and>
         (b \<longleftrightarrow> 0 < n)))"
proof -
  have "set app_required \<subseteq> set (columns ([sample_table] ! 0))"
    by (simp add: app_required_def sample_table_def)
  then show ?thesis
    using sample_required
      has_abstract_iff_word_count [of "[sample_table]" 0 sample_parse sample_render]
    by blast
qed

end
